theory Spec2Isabelle
  imports Complex_Main
begin

section \<open>Numbers of the Python code\<close>

text \<open>
  The services compute with binary floating-point numbers: numpy's \<open>float32\<close> in the
  data frame, Python's \<open>float\<close> (double precision) everywhere else. A finite float is the
  real number it stands for, and an arithmetic operation is the exact operation followed
  by rounding to the format, to the nearest value with ties to the even one. Exponent
  limits are left out: no value of the pipeline comes near them. The three values that
  are not finite are constructors of their own, because the normalisation can divide zero
  by zero.
\<close>

datatype fl = Fin real | PInf | NInf | NaN

text \<open>Rounding to an integer, ties to the even neighbour (numpy's \<open>rint\<close>).\<close>

definition round_half_even :: "real \<Rightarrow> int" where
  "round_half_even x =
     (let f = \<lfloor>x\<rfloor>; r = x - of_int f
      in if r < 1 / 2 then f
         else if 1 / 2 < r then f + 1
         else if even f then f else f + 1)"

text \<open>Rounding to \<open>p\<close> significant bits: a number between \<open>2 ^ k\<close> and \<open>2 ^ (k + 1)\<close> goes to
  the nearest multiple of \<open>2 ^ (k - p + 1)\<close>.\<close>

definition rnd :: "nat \<Rightarrow> real \<Rightarrow> real" where
  "rnd p x =
     (if x = 0 then 0
      else let u = 2 powi (\<lfloor>log 2 \<bar>x\<bar>\<rfloor> - int p + 1)
           in of_int (round_half_even (x / u)) * u)"

definition float32 :: "real \<Rightarrow> real" where
  "float32 x = rnd 24 x"

definition float64 :: "real \<Rightarrow> real" where
  "float64 x = rnd 53 x"

fun fl_float32 :: "fl \<Rightarrow> fl" where
  "fl_float32 (Fin a) = Fin (float32 a)"
| "fl_float32 x = x"

fun fl_float64 :: "fl \<Rightarrow> fl" where
  "fl_float64 (Fin a) = Fin (float64 a)"
| "fl_float64 x = x"

text \<open>numpy's true division of two finite \<open>float32\<close> values: a zero divisor gives NaN or an
  infinity, it does not raise.\<close>

fun np_div :: "real \<Rightarrow> real \<Rightarrow> fl" where
  "np_div a b =
     (if b \<noteq> 0 then Fin (float32 (a / b))
      else if a = 0 then NaN
      else if 0 < a then PInf else NInf)"

text \<open>The exact operations on finite values, with the IEEE rules for the others; the code's
  operations below round their results.\<close>

fun fl_times :: "fl \<Rightarrow> real \<Rightarrow> fl" where
  "fl_times (Fin a) c = Fin (a * c)"
| "fl_times PInf c = (if 0 < c then PInf else if c < 0 then NInf else NaN)"
| "fl_times NInf c = (if 0 < c then NInf else if c < 0 then PInf else NaN)"
| "fl_times NaN c = NaN"

text \<open>Division by a finite number that is not zero (every call below divides by a positive
  constant or by a count already known to be positive).\<close>

fun fl_over :: "fl \<Rightarrow> real \<Rightarrow> fl" where
  "fl_over (Fin a) c = Fin (a / c)"
| "fl_over PInf c = (if 0 < c then PInf else NInf)"
| "fl_over NInf c = (if 0 < c then NInf else PInf)"
| "fl_over NaN c = NaN"

fun fl_neg :: "fl \<Rightarrow> fl" where
  "fl_neg (Fin a) = Fin (- a)"
| "fl_neg PInf = NInf"
| "fl_neg NInf = PInf"
| "fl_neg NaN = NaN"

fun fl_add :: "fl \<Rightarrow> fl \<Rightarrow> fl" where
  "fl_add (Fin a) (Fin b) = Fin (a + b)"
| "fl_add NaN y = NaN"
| "fl_add x NaN = NaN"
| "fl_add PInf NInf = NaN"
| "fl_add NInf PInf = NaN"
| "fl_add PInf y = PInf"
| "fl_add x PInf = PInf"
| "fl_add NInf y = NInf"
| "fl_add x NInf = NInf"

definition fl_sub :: "fl \<Rightarrow> fl \<Rightarrow> fl" where
  "fl_sub x y = fl_add x (fl_neg y)"

text \<open>\<open>x > y\<close>: false as soon as one side is NaN.\<close>

fun fl_gt :: "fl \<Rightarrow> fl \<Rightarrow> bool" where
  "fl_gt (Fin a) (Fin b) = (b < a)"
| "fl_gt NaN y = False"
| "fl_gt x NaN = False"
| "fl_gt PInf PInf = False"
| "fl_gt PInf y = True"
| "fl_gt x PInf = False"
| "fl_gt NInf y = False"
| "fl_gt x NInf = True"

definition fl_lt :: "fl \<Rightarrow> fl \<Rightarrow> bool" where
  "fl_lt x y = fl_gt y x"

text \<open>The decimal number with \<open>n\<close> places nearest to \<open>x\<close>, ties to the even neighbour.\<close>

definition py_round :: "nat \<Rightarrow> real \<Rightarrow> real" where
  "py_round n x = of_int (round_half_even (x * 10 ^ n)) / 10 ^ n"

text \<open>Python's \<open>round(x, n)\<close> of a double: the double nearest to the decimal number nearest
  to \<open>x\<close>.\<close>

fun fl_round :: "nat \<Rightarrow> fl \<Rightarrow> fl" where
  "fl_round n (Fin a) = Fin (float64 (py_round n a))"
| "fl_round n x = x"

text \<open>numpy's \<open>round\<close> of a \<open>float32\<close> value to \<open>n\<close> places, which pandas'
  \<open>Series.round\<close> calls: multiply by \<open>10 ^ n\<close>, round to an integer, divide by \<open>10 ^ n\<close>,
  each in \<open>float32\<close>.\<close>

fun np_round :: "nat \<Rightarrow> fl \<Rightarrow> fl" where
  "np_round n (Fin a) = Fin (float32 (of_int (round_half_even (float32 (a * 10 ^ n))) / 10 ^ n))"
| "np_round n x = x"

text \<open>Python's \<open>sum\<close>: starts at 0 and adds from the left. The additions are exact here:
  the scores of a batch are \<open>float32\<close> values near decimal numbers between 0 and 100, and
  the double-precision sum of at most 168 of them needs no rounding.\<close>

definition py_sum :: "fl list \<Rightarrow> fl" where
  "py_sum xs = foldl fl_add (Fin 0) xs"

text \<open>Python's \<open>max(0, x)\<close>: \<open>x\<close> replaces 0 only when \<open>x > 0\<close> holds.\<close>

definition py_max0 :: "fl \<Rightarrow> fl" where
  "py_max0 x = (if fl_gt x (Fin 0) then x else Fin 0)"


section \<open>Data of the services\<close>

text \<open>
  A timestamp is a count of seconds since the epoch, in UTC; its calendar date is the
  number of whole days. \<open>PredictionPoint\<close> is the pydantic model of
  \<open>app/models/prediction.py\<close>.
\<close>

definition dt_date :: "nat \<Rightarrow> nat" where
  "dt_date t = t div 86400"


record PredictionPoint =
  timestamp :: nat
  cleanliness_score :: fl
  confidence :: "real option"
  carbon_intensity :: "real option"

text \<open>The exceptions the pipeline can raise, and the \<open>HTTPException\<close> it turns them into:
  a status code and a detail.\<close>

datatype py_exception = ZeroDivisionError | IndexError | ValidationError | ParserError | ValueError

datatype detail = No_forecast_data_for string | Str py_exception

datatype http_exception = HTTPException nat detail

section \<open>The forecast pipeline (prediction\_service\_old.py, lines 476--569)\<close>

subsection \<open>Normalisation (lines 516--519)\<close>

text \<open>
  \<open>predicted\<close> is the column of raw scores the ranking model returns, a \<open>float32\<close>
  column, so the subtraction, the division and the multiplication are \<open>float32\<close>
  operations. The maximum and the minimum of an empty column are not needed: the map
  below is then over no row.
\<close>

definition cleanliness_scores :: "real list \<Rightarrow> fl list" where
  "cleanliness_scores predicted =
     (case predicted of
        [] \<Rightarrow> []
      | p # ps \<Rightarrow>
          let max_score = fold max ps p;
              min_score = fold min ps p
          in map (\<lambda>x. np_round 1
                        (fl_float32
                           (fl_times
                              (np_div (float32 (x - min_score))
                                 (float32 (max_score - min_score))) 100)))
               predicted)"

subsection \<open>Impact equivalents (lines 476--496)\<close>

definition glyph :: "nat \<Rightarrow> string" where
  "glyph b = [CHR 0xC3, CHR 0xB0, CHR 0xC5, CHR 0xB8, CHR 0xC5, CHR 0x92, CHR 0xC2, char_of b]"

text \<open>The messages end in pictographs, kept as the bytes the source file holds.\<close>

definition format_tree_message :: "fl \<Rightarrow> string" where
  "format_tree_message trees =
     (if fl_lt trees (Fin (1 / 2)) then ''You helped a sapling take root '' @ glyph 0xB1
      else if fl_lt trees (Fin (3 / 2)) then ''You planted a tree today '' @ glyph 0xB3
      else if fl_lt trees (Fin 3) then ''You planted two trees '' @ glyph 0xB3 @ glyph 0xB3
      else if fl_lt trees (Fin 5) then
        ''You grew a small grove '' @ glyph 0xB2 @ glyph 0xB3 @ glyph 0xB2
      else if fl_lt trees (Fin 10) then
        ''You restored a patch of forest '' @ glyph 0xB3 @ glyph 0xB3 @ glyph 0xB3
          @ glyph 0xB3 @ glyph 0xB3
      else ''You made a forest flourish '' @ glyph 0xB3 @ glyph 0xB2 @ glyph 0xB3
          @ glyph 0xB2 @ glyph 0xB3)"

text \<open>The local \<open>co2_saved_kg\<close> of both versions of \<open>calculate_impact\<close>, in double
  precision: the difference, the quotient and the product are each rounded. The
  constants 21.77 and 0.192 are the doubles nearest to them.\<close>

definition co2_saved :: "fl \<Rightarrow> fl \<Rightarrow> nat \<Rightarrow> fl" where
  "co2_saved avg_score best_score duration_hours =
     fl_float64
       (fl_times (py_max0 (fl_float64 (fl_over (fl_float64 (fl_sub best_score avg_score)) 10)))
          (real duration_hours))"

record impact_equivalents =
  trees_planted_equiv :: fl
  tree_message :: string

definition calculate_impact :: "fl \<Rightarrow> fl \<Rightarrow> nat \<Rightarrow> impact_equivalents" where
  "calculate_impact avg_score best_score duration_hours =
     (let co2_saved_kg = co2_saved avg_score best_score duration_hours;
          trees_planted = fl_round 2 (fl_float64 (fl_over co2_saved_kg (float64 (2177 / 100))))
      in \<lparr>trees_planted_equiv = trees_planted,
          tree_message = format_tree_message trees_planted\<rparr>)"



subsection \<open>Day filter (lines 521--525)\<close>

text \<open>
  A row of the scored frame is its \<open>datetime\<close> and its \<open>cleanliness_score\<close>.
  \<open>to_date\<close> stands for \<open>pd.to_datetime(day).date()\<close>, with \<open>None\<close> where pandas raises.
  An empty string is falsy, so it asks for no filter.
\<close>

type_synonym scored_row = "nat \<times> fl"

definition day_filter ::
  "(string \<Rightarrow> nat option) \<Rightarrow> string option \<Rightarrow> scored_row list \<Rightarrow> http_exception + scored_row list"
where
  "day_filter to_date day df_proc =
     (case day of
        None \<Rightarrow> Inr df_proc
      | Some d \<Rightarrow>
          if d = [] then Inr df_proc
          else (case to_date d of
                  None \<Rightarrow> Inl (HTTPException 500 (Str ParserError))
                | Some target_date \<Rightarrow>
                    let kept = filter (\<lambda>r. dt_date (fst r) = target_date) df_proc
                    in if kept = [] then Inl (HTTPException 404 (No_forecast_data_for d))
                       else Inr kept))"

subsection \<open>Window scan (lines 527--535)\<close>

text \<open>One pass of the loop body, on the pair \<open>(best_start_idx, best_avg)\<close>;
  \<open>duration_hours\<close> is positive here. The scan compares the exact means: rounding the
  quotients to doubles keeps their order, and two windows of a batch with different sums
  have different doubles as their means.\<close>

definition window_avg :: "fl list \<Rightarrow> nat \<Rightarrow> nat \<Rightarrow> fl" where
  "window_avg scores duration_hours i =
     fl_over (py_sum (take duration_hours (drop i scores))) (real duration_hours)"

definition window_step :: "fl list \<Rightarrow> nat \<Rightarrow> nat \<times> fl \<Rightarrow> nat \<Rightarrow> nat \<times> fl" where
  "window_step scores duration_hours best i =
     (let avg_window = window_avg scores duration_hours i
      in if fl_gt avg_window (snd best) then (i, avg_window) else best)"

text \<open>\<open>range(len(scores) - duration_hours + 1)\<close> is empty when the bound is not positive,
  which the truncating subtraction of \<open>nat\<close> gives as well.\<close>

definition best_window :: "fl list \<Rightarrow> nat \<Rightarrow> nat \<times> fl" where
  "best_window scores duration_hours =
     foldl (window_step scores duration_hours) (0, Fin (- 1))
       [0 ..< length scores + 1 - duration_hours]"

subsection \<open>The whole request (lines 501--569)\<close>

record forecast_row =
  datetime :: nat
  predicted_score :: real

record recommended_window =
  window_start :: nat
  window_end :: nat
  average_cleanliness_score :: fl
  impact :: impact_equivalents

record predictions_result =
  location :: string
  predictions :: "PredictionPoint list"
  recommended :: recommended_window
  model_version :: string
  data_freshness :: string

text \<open>The field constraint \<open>ge=0, le=100\<close> of \<open>PredictionPoint.cleanliness_score\<close>. Whether
  the validation library lets NaN through is a parameter; the library the service runs
  with rejects it (\<open>nan_ok = False\<close>).\<close>

definition score_valid :: "bool \<Rightarrow> fl \<Rightarrow> bool" where
  "score_valid nan_ok s = (case s of Fin v \<Rightarrow> 0 \<le> v \<and> v \<le> 100 | NaN \<Rightarrow> nan_ok | _ \<Rightarrow> False)"

definition server_error :: "py_exception \<Rightarrow> http_exception + 'a" where
  "server_error e = Inl (HTTPException 500 (Str e))"

text \<open>
  Geocoding, the weather request and the model's \<open>predict\<close> are outside the program: their
  outcome is the frame \<open>weather_df\<close> of timestamps and raw scores. \<open>scored_frame\<close> is
  \<open>df_proc\<close> after line 519: each timestamp with its normalised score.
\<close>

definition scored_frame :: "forecast_row list \<Rightarrow> scored_row list" where
  "scored_frame weather_df =
     zip (map datetime weather_df) (cleanliness_scores (map predicted_score weather_df))"

text \<open>
  Lines 527--563, on the frame the day filter left. \<open>duration_hours\<close> is a natural number,
  as the route's \<open>ge=1\<close> bound makes it; with 0 the first pass of the loop divides by zero.
  Every exception that is not an \<open>HTTPException\<close> becomes status 500 (lines 565--569).
  The clock value \<open>generated_at\<close> is left out of the result. The mean the scan found
  and the mean of all scores are doubles in the code: the quotients are rounded where
  they are used, in the impact and in the reported average.
\<close>

definition recommend_window ::
  "bool \<Rightarrow> string \<Rightarrow> scored_row list \<Rightarrow> nat \<Rightarrow> http_exception + predictions_result"
where
  "recommend_window nan_ok loc df_proc duration_hours =
     (let scores = map snd df_proc in
      if duration_hours = 0 then server_error ZeroDivisionError
      else
        let (best_start_idx, best_mean) = best_window scores duration_hours;
            best_avg = fl_float64 best_mean;
            best_block = take duration_hours (drop best_start_idx df_proc)
        in if scores = [] then server_error ZeroDivisionError
           else
             let imp = calculate_impact
                         (fl_float64 (fl_over (py_sum scores) (real (length scores))))
                         best_avg duration_hours
             in if \<not> list_all (score_valid nan_ok) scores
                then server_error ValidationError
                else if best_block = [] then server_error IndexError
                else Inr \<lparr>location = loc,
                          predictions =
                            map (\<lambda>row. \<lparr>timestamp = fst row,
                                         cleanliness_score = snd row,
                                         confidence = None,
                                         carbon_intensity = None\<rparr>) df_proc,
                          recommended =
                            \<lparr>window_start = fst (hd best_block),
                             window_end = fst (last best_block),
                             average_cleanliness_score = fl_round 1 best_avg,
                             impact = imp\<rparr>,
                          model_version = ''weather_time_v1'',
                          data_freshness = ''live''\<rparr>)"

definition generate_predictions ::
  "(string \<Rightarrow> nat option) \<Rightarrow> bool \<Rightarrow> string \<Rightarrow> forecast_row list \<Rightarrow> string option \<Rightarrow> nat
     \<Rightarrow> http_exception + predictions_result"
where
  "generate_predictions to_date nan_ok loc weather_df day duration_hours =
     (case day_filter to_date day (scored_frame weather_df) of
        Inl e \<Rightarrow> Inl e
      | Inr df_proc \<Rightarrow> recommend_window nan_ok loc df_proc duration_hours)"

section \<open>The mock service (prediction.py)\<close>

subsection \<open>Mock predictions (lines 21--50)\<close>




subsection \<open>Impact metrics (lines 75--130)\<close>

record ImpactMetrics =
  co2_saved_kg :: real
  trees_equivalent :: int
  car_km_avoided :: real
  coal_plants_offset_hours :: real







section \<open>Notions of the specification\<close>

text \<open>The arithmetic mean of the window of \<open>d\<close> scores that starts at index \<open>i\<close>.\<close>

definition window_mean :: "real list \<Rightarrow> nat \<Rightarrow> nat \<Rightarrow> real" where
  "window_mean rs d i = sum_list (take d (drop i rs)) / real d"


text \<open>
  The specification describes the message as a step function with thresholds at 0.5,
  1.5, 3, 5 and 10 onto six fixed strings. \<open>message_tier\<close> counts the thresholds a value
  has reached; \<open>tree_messages\<close> lists the strings from the lowest tier to the highest.
\<close>

definition tree_thresholds :: "real list" where
  "tree_thresholds = [1 / 2, 3 / 2, 3, 5, 10]"

definition message_tier :: "real \<Rightarrow> nat" where
  "message_tier t = length (filter (\<lambda>th. th \<le> t) tree_thresholds)"

definition tree_messages :: "string list" where
  "tree_messages =
     [''You helped a sapling take root '' @ glyph 0xB1,
      ''You planted a tree today '' @ glyph 0xB3,
      ''You planted two trees '' @ glyph 0xB3 @ glyph 0xB3,
      ''You grew a small grove '' @ glyph 0xB2 @ glyph 0xB3 @ glyph 0xB2,
      ''You restored a patch of forest '' @ glyph 0xB3 @ glyph 0xB3 @ glyph 0xB3
        @ glyph 0xB3 @ glyph 0xB3,
      ''You made a forest flourish '' @ glyph 0xB3 @ glyph 0xB2 @ glyph 0xB3
        @ glyph 0xB2 @ glyph 0xB3]"

section \<open>Rounding\<close>

lemma round_half_even_of_int: "round_half_even (of_int k) = k"
  by (simp add: round_half_even_def)

lemma round_half_even_floor:
  "\<lfloor>x\<rfloor> \<le> round_half_even x \<and> round_half_even x \<le> \<lfloor>x\<rfloor> + 1"
  by (simp add: round_half_even_def Let_def)

lemma round_half_even_near: "\<bar>of_int (round_half_even x) - x\<bar> \<le> 1 / 2"
  unfolding round_half_even_def Let_def
  by (auto simp: abs_if) linarith+

lemma round_half_even_mono:
  assumes "x \<le> y"
  shows "round_half_even x \<le> round_half_even y"
proof (cases "\<lfloor>x\<rfloor> = \<lfloor>y\<rfloor>")
  case True
  then have "x - of_int \<lfloor>x\<rfloor> \<le> y - of_int \<lfloor>y\<rfloor>"
    using assms by simp
  with True show ?thesis
    unfolding round_half_even_def Let_def by auto
next
  case False
  then have "\<lfloor>x\<rfloor> < \<lfloor>y\<rfloor>"
    using assms floor_mono [of x y] by linarith
  then show ?thesis
    using round_half_even_floor [of x] round_half_even_floor [of y] by linarith
qed

lemma py_round_mono: "x \<le> y \<Longrightarrow> py_round n x \<le> py_round n y"
  unfolding py_round_def
  by (intro divide_right_mono) (simp_all add: round_half_even_mono)

lemma py_round_of_int: "py_round n (of_int k) = of_int k"
proof -
  have "of_int k * (10::real) ^ n = of_int (k * 10 ^ n)" by simp
  then have "round_half_even (of_int k * 10 ^ n) = k * 10 ^ n"
    using round_half_even_of_int by metis
  then show ?thesis by (simp add: py_round_def)
qed

lemma py_round_zero: "py_round n 0 = 0"
  using py_round_of_int [of n 0] by simp

lemma py_round_numeral: "py_round n (numeral k) = numeral k"
  using py_round_of_int [of n "numeral k"] by simp

lemma py_round_near: "\<bar>py_round n x - x\<bar> \<le> 1 / (2 * 10 ^ n)"
proof -
  have "\<bar>of_int (round_half_even (x * 10 ^ n)) - x * 10 ^ n\<bar> \<le> 1 / 2"
    by (rule round_half_even_near)
  then have "\<bar>of_int (round_half_even (x * 10 ^ n)) - x * 10 ^ n\<bar> / 10 ^ n \<le> (1 / 2) / 10 ^ n"
    by (intro divide_right_mono) simp_all
  moreover have "py_round n x - x = (of_int (round_half_even (x * 10 ^ n)) - x * 10 ^ n) / 10 ^ n"
    by (simp add: py_round_def diff_divide_distrib)
  then have "\<bar>py_round n x - x\<bar>
      = \<bar>of_int (round_half_even (x * 10 ^ n)) - x * 10 ^ n\<bar> / 10 ^ n"
    by (simp only: abs_divide) simp
  ultimately show ?thesis by simp
qed

lemma py_round_between:
  assumes "of_int lo \<le> x" and "x \<le> of_int hi"
  shows "of_int lo \<le> py_round n x \<and> py_round n x \<le> of_int hi"
  using py_round_mono [OF assms(1), of n] py_round_mono [OF assms(2), of n]
  by (simp add: py_round_of_int)

section \<open>Binary rounding\<close>

lemma powr_pow2: "(2::real) powr of_int k = 2 powi k"
  by (rule powr_real_of_int') simp_all

lemma binade_bounds:
  assumes "x \<noteq> 0"
  shows "2 powi \<lfloor>log 2 \<bar>x\<bar>\<rfloor> \<le> \<bar>x\<bar>" and "\<bar>x\<bar> < 2 powi (\<lfloor>log 2 \<bar>x\<bar>\<rfloor> + 1)"
proof -
  have pos: "0 < \<bar>x\<bar>" using assms by simp
  have "of_int \<lfloor>log 2 \<bar>x\<bar>\<rfloor> \<le> log 2 \<bar>x\<bar>" by simp
  then have "2 powr of_int \<lfloor>log 2 \<bar>x\<bar>\<rfloor> \<le> \<bar>x\<bar>"
    using pos le_log_iff [of 2 "\<bar>x\<bar>" "of_int \<lfloor>log 2 \<bar>x\<bar>\<rfloor>"] by simp
  then show "2 powi \<lfloor>log 2 \<bar>x\<bar>\<rfloor> \<le> \<bar>x\<bar>"
    using powr_pow2 by simp
  have "log 2 \<bar>x\<bar> < of_int (\<lfloor>log 2 \<bar>x\<bar>\<rfloor> + 1)" by linarith
  then have "\<bar>x\<bar> < 2 powr of_int (\<lfloor>log 2 \<bar>x\<bar>\<rfloor> + 1)"
    using pos log_less_iff [of 2 "\<bar>x\<bar>" "of_int (\<lfloor>log 2 \<bar>x\<bar>\<rfloor> + 1)"] by simp
  then show "\<bar>x\<bar> < 2 powi (\<lfloor>log 2 \<bar>x\<bar>\<rfloor> + 1)"
    using powr_pow2 [of "\<lfloor>log 2 \<bar>x\<bar>\<rfloor> + 1"] by simp
qed

lemma binade_unique:
  assumes "2 powi k \<le> \<bar>x\<bar>" and "\<bar>x\<bar> < 2 powi (k + 1)"
  shows "\<lfloor>log 2 \<bar>x\<bar>\<rfloor> = k"
proof -
  have "0 < (2::real) powi k" by simp
  then have pos: "0 < \<bar>x\<bar>"
    using assms(1) by linarith
  have "2 powr of_int k \<le> \<bar>x\<bar>"
    using assms(1) powr_pow2 [of k] by simp
  then have a: "of_int k \<le> log 2 \<bar>x\<bar>"
    using pos le_log_iff [of 2 "\<bar>x\<bar>" "of_int k"] by simp
  have "\<bar>x\<bar> < 2 powr of_int (k + 1)"
    using assms(2) powr_pow2 [of "k + 1"] by simp
  then have b: "log 2 \<bar>x\<bar> < of_int (k + 1)"
    using pos log_less_iff [of 2 "\<bar>x\<bar>" "of_int (k + 1)"] by simp
  show ?thesis
    using a b by (intro floor_unique) simp_all
qed

lemma rnd_zero: "rnd p 0 = 0"
  by (simp add: rnd_def)

lemma rnd_binade:
  assumes "2 powi k \<le> \<bar>x\<bar>" and "\<bar>x\<bar> < 2 powi (k + 1)"
  shows "rnd p x = of_int (round_half_even (x / 2 powi (k - int p + 1))) * 2 powi (k - int p + 1)"
proof -
  have "0 < (2::real) powi k" by simp
  then have "0 < \<bar>x\<bar>"
    using assms(1) by linarith
  then have "x \<noteq> 0" by simp
  then show ?thesis
    by (simp add: rnd_def binade_unique [OF assms] Let_def)
qed

lemma rnd_nonneg: "0 \<le> x \<Longrightarrow> 0 \<le> rnd p x"
proof -
  assume x: "0 \<le> x"
  have "0 \<le> round_half_even (x / 2 powi j)" for j
    using round_half_even_mono [of 0 "x / 2 powi j"] x
    by (simp add: round_half_even_def)
  then show ?thesis
    by (simp add: rnd_def Let_def)
qed


lemma rnd_on_grid:
  assumes "2 powi k \<le> \<bar>x\<bar>" and "\<bar>x\<bar> < 2 powi (k + 1)"
    and "x = of_int m * 2 powi (k - int p + 1)"
  shows "rnd p x = x"
proof -
  let ?u = "(2::real) powi (k - int p + 1)"
  have q: "x / ?u = of_int m"
    using assms(3) by simp
  have "rnd p x = of_int (round_half_even (x / ?u)) * ?u"
    by (rule rnd_binade [OF assms(1,2)])
  also have "\<dots> = of_int m * ?u"
    by (simp only: q round_half_even_of_int)
  also have "\<dots> = x"
    using assms(3) by simp
  finally show ?thesis .
qed

lemma rnd_of_int:
  assumes "\<bar>k\<bar> < 2 ^ p"
  shows "rnd p (of_int k) = of_int k"
proof (cases "k = 0")
  case True
  then show ?thesis by (simp add: rnd_zero)
next
  case False
  define x :: real where "x = of_int k"
  define e where "e = \<lfloor>log 2 \<bar>x\<bar>\<rfloor>"
  have x0: "x \<noteq> 0" using False by (simp add: x_def)
  have lo: "2 powi e \<le> \<bar>x\<bar>" and hi: "\<bar>x\<bar> < 2 powi (e + 1)"
    using binade_bounds [OF x0] by (simp_all add: e_def)
  have "1 \<le> \<bar>x\<bar>"
    using False by (simp add: x_def flip: of_int_abs)
  then have one: "1 < (2::real) powi (e + 1)"
    using hi by simp
  have e0: "0 \<le> e"
  proof (rule ccontr)
    assume "\<not> 0 \<le> e"
    then have "e + 1 \<le> 0" by simp
    then have "(2::real) powi (e + 1) \<le> 2 powi 0"
      by (intro power_int_increasing) simp_all
    then show False using one by simp
  qed
  have "\<bar>x\<bar> < 2 ^ p"
    using assms by (simp add: x_def flip: of_int_abs)
  then have "(2::real) powi e < 2 powi int p"
    using lo by simp
  then have ep: "e < int p"
    using power_int_le_imp_less_exp [of "2::real" e "int p"] by simp
  define n where "n = nat (int p - 1 - e)"
  have j: "e - int p + 1 = - int n"
    using ep by (simp add: n_def)
  have "x = of_int (k * 2 ^ n) * 2 powi (e - int p + 1)"
    unfolding j by (simp add: x_def power_int_minus)
  then show ?thesis
    using rnd_on_grid [OF lo hi] unfolding x_def by blast
qed

lemma rnd_numeral: "numeral n < (2::int) ^ p \<Longrightarrow> rnd p (numeral n) = numeral n"
  using rnd_of_int [of "numeral n" p] by simp

lemma rnd_one: "0 < p \<Longrightarrow> rnd p 1 = 1"
  using rnd_of_int [of 1 p] by simp

lemma rnd_binade_bounds:
  assumes "2 powi k \<le> x" and "x < 2 powi (k + 1)" and "0 < p"
  shows "2 powi k \<le> rnd p x" and "rnd p x \<le> 2 powi (k + 1)"
proof -
  let ?u = "(2::real) powi (k - int p + 1)"
  have xpos: "0 < x"
    using assms(1) zero_less_power_int [of "2::real" k] by linarith
  then have ax: "\<bar>x\<bar> = x" by simp
  have r: "rnd p x = of_int (round_half_even (x / ?u)) * ?u"
    using rnd_binade [of k x p] assms(1,2) ax by simp
  have upos: "0 < ?u" by simp
  have lo_u: "(2::real) powi k = of_int (2 ^ (p - 1)) * ?u"
  proof -
    have "(2::real) powi k = 2 powi (int (p - 1) + (k - int p + 1))"
      using assms(3) by (simp add: of_nat_diff)
    also have "\<dots> = 2 powi int (p - 1) * ?u"
      by (rule power_int_add) simp
    finally show ?thesis by simp
  qed
  have hi_u: "(2::real) powi (k + 1) = of_int (2 ^ p) * ?u"
  proof -
    have "(2::real) powi (k + 1) = 2 powi (int p + (k - int p + 1))"
      by simp
    also have "\<dots> = 2 powi int p * ?u"
      by (rule power_int_add) simp
    finally show ?thesis by simp
  qed
  have "of_int (2 ^ (p - 1)) \<le> x / ?u"
    using assms(1) upos unfolding lo_u by (simp add: field_simps)
  then have "round_half_even (of_int (2 ^ (p - 1))) \<le> round_half_even (x / ?u)"
    by (rule round_half_even_mono)
  then have a: "2 ^ (p - 1) \<le> round_half_even (x / ?u)"
    by (simp only: round_half_even_of_int)
  have "x / ?u \<le> of_int (2 ^ p)"
    using assms(2) upos unfolding hi_u by (simp add: field_simps)
  then have "round_half_even (x / ?u) \<le> round_half_even (of_int (2 ^ p))"
    by (rule round_half_even_mono)
  then have b: "round_half_even (x / ?u) \<le> 2 ^ p"
    by (simp only: round_half_even_of_int)
  have "of_int (2 ^ (p - 1)) * ?u \<le> of_int (round_half_even (x / ?u)) * ?u"
    using a upos by (intro mult_right_mono) simp_all
  then show "2 powi k \<le> rnd p x"
    unfolding r lo_u .
  have "of_int (round_half_even (x / ?u)) * ?u \<le> of_int (2 ^ p) * ?u"
    using b upos by (intro mult_right_mono) simp_all
  then show "rnd p x \<le> 2 powi (k + 1)"
    unfolding r hi_u .
qed


lemma rnd_mono:
  assumes "0 \<le> x" and "x \<le> y" and "0 < p"
  shows "rnd p x \<le> rnd p y"
proof (cases "x = 0")
  case True
  then show ?thesis
    using rnd_nonneg [of y p] assms by (simp add: rnd_zero)
next
  case False
  then have xpos: "0 < x" and ypos: "0 < y" using assms by simp_all
  define a where "a = \<lfloor>log 2 \<bar>x\<bar>\<rfloor>"
  define b where "b = \<lfloor>log 2 \<bar>y\<bar>\<rfloor>"
  have xa: "2 powi a \<le> x" "x < 2 powi (a + 1)"
    using binade_bounds [of x] xpos by (simp_all add: a_def)
  have yb: "2 powi b \<le> y" "y < 2 powi (b + 1)"
    using binade_bounds [of y] ypos by (simp_all add: b_def)
  have "(2::real) powi a < 2 powi (b + 1)"
    using xa(1) yb(2) assms(2) by linarith
  then have "a < b + 1"
    by (metis linorder_not_le one_le_numeral power_int_increasing)
  then have ab: "a \<le> b" by simp
  show ?thesis
  proof (cases "a = b")
    case True
    let ?u = "(2::real) powi (a - int p + 1)"
    have "x / ?u \<le> y / ?u"
      using assms(2) by (simp add: divide_right_mono)
    then have "round_half_even (x / ?u) \<le> round_half_even (y / ?u)"
      by (rule round_half_even_mono)
    then have "of_int (round_half_even (x / ?u)) * ?u \<le> of_int (round_half_even (y / ?u)) * ?u"
      by (intro mult_right_mono) simp_all
    moreover have "rnd p x = of_int (round_half_even (x / ?u)) * ?u"
      using rnd_binade [of a x p] xa xpos by simp
    moreover have "rnd p y = of_int (round_half_even (y / ?u)) * ?u"
      using rnd_binade [of a y p] yb ypos True by simp
    ultimately show ?thesis by simp
  next
    case False
    then have "a + 1 \<le> b" using ab by simp
    then have "(2::real) powi (a + 1) \<le> 2 powi b"
      by (intro power_int_increasing) simp_all
    moreover have "rnd p x \<le> 2 powi (a + 1)"
      using rnd_binade_bounds(2) [OF xa assms(3)] .
    moreover have "2 powi b \<le> rnd p y"
      using rnd_binade_bounds(1) [OF yb assms(3)] .
    ultimately show ?thesis by linarith
  qed
qed

lemma rnd_error: "\<bar>rnd p x - x\<bar> \<le> \<bar>x\<bar> / 2 ^ p"
proof (cases "x = 0")
  case True
  then show ?thesis by (simp add: rnd_zero)
next
  case False
  define k where "k = \<lfloor>log 2 \<bar>x\<bar>\<rfloor>"
  let ?u = "(2::real) powi (k - int p + 1)"
  have lo: "2 powi k \<le> \<bar>x\<bar>" and hi: "\<bar>x\<bar> < 2 powi (k + 1)"
    using binade_bounds [OF False] by (simp_all add: k_def)
  have r: "rnd p x = of_int (round_half_even (x / ?u)) * ?u"
    using rnd_binade [OF lo hi] .
  have upos: "0 < ?u" by simp
  have "rnd p x - x = (of_int (round_half_even (x / ?u)) - x / ?u) * ?u"
    unfolding r using upos by (simp add: field_simps)
  then have "\<bar>rnd p x - x\<bar> = \<bar>of_int (round_half_even (x / ?u)) - x / ?u\<bar> * ?u"
    using upos by (simp add: abs_mult)
  also have "\<dots> \<le> 1 / 2 * ?u"
    using round_half_even_near [of "x / ?u"] upos by (intro mult_right_mono) simp_all
  also have "1 / 2 * ?u = 2 powi k / 2 ^ p"
  proof -
    have "?u = 2 powi (k + (- int p + 1))" by (simp add: algebra_simps)
    also have "\<dots> = 2 powi k * 2 powi (- int p + 1)"
      by (rule power_int_add) simp
    also have "(2::real) powi (- int p + 1) = 2 powi (- int p) * 2 powi 1"
      by (rule power_int_add) simp
    finally show ?thesis
      by (simp add: power_int_minus field_simps)
  qed
  also have "\<dots> \<le> \<bar>x\<bar> / 2 ^ p"
    using lo by (simp add: divide_right_mono)
  finally show ?thesis .
qed


lemma rnd_bounded:
  assumes "0 \<le> x" and "x \<le> of_int N" and "\<bar>N\<bar> < 2 ^ p" and "0 < p"
  shows "0 \<le> rnd p x \<and> rnd p x \<le> of_int N"
  using rnd_nonneg [OF assms(1), of p] rnd_mono [OF assms(1,2,4)] rnd_of_int [OF assms(3)]
  by simp

lemma rnd_error_bounded:
  assumes "\<bar>x\<bar> \<le> B"
  shows "\<bar>rnd p x - x\<bar> \<le> B / 2 ^ p"
proof -
  have "\<bar>x\<bar> / 2 ^ p \<le> B / 2 ^ p"
    using assms by (simp add: divide_right_mono)
  then show ?thesis
    using rnd_error [of p x] by linarith
qed

section \<open>The two formats\<close>

lemma float32_zero: "float32 0 = 0"
  by (simp add: float32_def rnd_zero)

lemma float32_one: "float32 1 = 1"
  by (simp add: float32_def rnd_one)

lemma float32_numeral: "numeral k < (2::int) ^ 24 \<Longrightarrow> float32 (numeral k) = numeral k"
  unfolding float32_def by (rule rnd_numeral)

lemma float32_half: "float32 (1 / 2) = 1 / 2"
  unfolding float32_def using rnd_binade [of "- 1" "1 / 2" 24]
  by (simp add: round_half_even_def)

lemma float32_quarter: "float32 (1 / 4) = 1 / 4"
  unfolding float32_def using rnd_binade [of "- 2" "1 / 4" 24]
  by (simp add: round_half_even_def)


lemma float64_zero: "float64 0 = 0"
  by (simp add: float64_def rnd_zero)





lemma float64_of_int: "\<bar>k\<bar> < 2 ^ 53 \<Longrightarrow> float64 (of_int k) = of_int k"
  unfolding float64_def by (rule rnd_of_int)

lemma float64_error: "\<bar>float64 x - x\<bar> \<le> \<bar>x\<bar> / 2 ^ 53"
  unfolding float64_def by (rule rnd_error)


lemma float64_numeral: "numeral k < (2::int) ^ 53 \<Longrightarrow> float64 (numeral k) = numeral k"
  unfolding float64_def by (rule rnd_numeral)

lemma float64_minus_one: "float64 (- 1) = - 1"
  using float64_of_int [of "- 1"] by simp

lemma py_round_minus_one: "py_round n (- 1) = - 1"
  using py_round_of_int [of n "- 1"] by simp

text \<open>A number closer to a decimal number than half a unit of its last place rounds to
  it.\<close>

lemma py_round_window:
  assumes "of_int k / 10 ^ n - 1 / (2 * 10 ^ n) < x" and "x < of_int k / 10 ^ n + 1 / (2 * 10 ^ n)"
  shows "py_round n x = of_int k / 10 ^ n"
proof -
  let ?y = "x * 10 ^ n"
  have lo: "of_int k - 1 / 2 < ?y"
    using assms(1) by (simp add: field_simps)
  have hi: "?y < of_int k + 1 / 2"
    using assms(2) by (simp add: field_simps)
  have "round_half_even ?y = k"
  proof (cases "of_int k \<le> ?y")
    case True
    then have "\<lfloor>?y\<rfloor> = k"
      using hi by (intro floor_unique) simp_all
    then show ?thesis
      using hi by (simp add: round_half_even_def)
  next
    case False
    then have "\<lfloor>?y\<rfloor> = k - 1"
      using lo by (intro floor_unique) simp_all
    then show ?thesis
      using lo by (simp add: round_half_even_def)
  qed
  then show ?thesis
    by (simp add: py_round_def)
qed

section \<open>Normalisation\<close>

lemma fold_max_Max: "fold max ps (p::real) = Max (set (p # ps))"
  by (simp only: Max.set_eq_fold)

lemma fold_min_Min: "fold min ps (p::real) = Min (set (p # ps))"
  by (simp only: Min.set_eq_fold)









text \<open>
  Claim C2 asks for a defined constant when all raw scores are equal. The code has no
  branch for that batch: it divides zero by zero, so the batch \<open>[3, 3]\<close> gives NaN twice
  and no finite score at all.
\<close>

theorem zero_variance_counterexample:
  "fold max [3] 3 = fold min [3] (3::real)
   \<and> cleanliness_scores [3, 3] = [NaN, NaN]
   \<and> (\<nexists>c. Fin c \<in> set (cleanliness_scores [3, 3]))"
  by (simp add: cleanliness_scores_def float32_def rnd_zero)

text \<open>
  Claim C2, as amended: for a non-empty batch in which all raw scores are equal, every
  normalised score is NaN.
\<close>

theorem zero_variance_all_nan:
  assumes "raw \<noteq> []" and "Max (set raw) = Min (set raw)"
  shows "cleanliness_scores raw = replicate (length raw) NaN"
proof -
  obtain p ps where raw: "raw = p # ps"
    using assms(1) by (cases raw) auto
  have same: "fold max ps p = fold min ps p"
    using assms(2) unfolding raw fold_max_Max fold_min_Min .
  have mn: "fold min ps p = Min (set raw)"
    unfolding raw fold_min_Min ..
  have "x = fold min ps p" if "x \<in> set raw" for x
  proof -
    have "Min (set raw) \<le> x" "x \<le> Max (set raw)" using that by simp_all
    then show ?thesis using assms(2) unfolding mn by simp
  qed
  then have el: "np_round 1 (fl_float32 (fl_times
                 (np_div (float32 (x - fold min ps p))
                    (float32 (fold max ps p - fold min ps p))) 100)) = NaN"
    if "x \<in> set (p # ps)" for x
    using that same by (simp add: raw float32_def rnd_zero)
  have "map (\<lambda>x. np_round 1 (fl_float32 (fl_times
                 (np_div (float32 (x - fold min ps p))
                    (float32 (fold max ps p - fold min ps p))) 100))) (p # ps)
      = map (\<lambda>x. NaN) (p # ps)"
    using el by (intro map_cong [OF refl])
  then show ?thesis
    unfolding cleanliness_scores_def raw
    by (simp only: list.case Let_def) (simp add: map_replicate_const)
qed

theorem zero_variance_all_nan_witness:
  "[7, 7, 7] \<noteq> ([]::real list) \<and> Max (set [7, 7, 7 :: real]) = Min (set [7, 7, 7])
   \<and> cleanliness_scores [7, 7, 7] = [NaN, NaN, NaN]"
proof -
  have a: "[7, 7, 7] \<noteq> ([]::real list)" by simp
  have b: "Max (set [7, 7, 7 :: real]) = Min (set [7, 7, 7])" by simp
  show ?thesis
    using zero_variance_all_nan [OF a b] by (simp add: numeral_3_eq_3)
qed

section \<open>Impact equivalents\<close>

lemma filter_length_mono:
  assumes "\<And>x. P x \<Longrightarrow> Q x"
  shows "length (filter P xs) \<le> length (filter Q xs)"
  using assms by (induction xs) auto

lemma message_tier_mono: "t \<le> t' \<Longrightarrow> message_tier t \<le> message_tier t'"
  unfolding message_tier_def by (rule filter_length_mono) simp

lemma tree_messages_distinct: "distinct tree_messages"
  by (simp add: tree_messages_def glyph_def)

lemma format_tree_message_tier: "format_tree_message (Fin t) = tree_messages ! message_tier t"
  by (simp add: format_tree_message_def fl_lt_def message_tier_def tree_thresholds_def
      tree_messages_def)

lemma message_tier_bound: "message_tier t \<le> 5"
proof -
  have "message_tier t \<le> length tree_thresholds"
    unfolding message_tier_def by (rule length_filter_le)
  then show ?thesis by (simp add: tree_thresholds_def)
qed

text \<open>
  Claim C7. The message is the step function of the thresholds 0.5, 1.5, 3, 5 and 10: a
  value selects the string of the tier it has reached, the six strings differ from each
  other, and a larger value never selects the string of a lower tier.
\<close>

theorem format_tree_message_step:
  "format_tree_message (Fin t) = tree_messages ! message_tier t
   \<and> message_tier t < length tree_messages
   \<and> length tree_messages = 6
   \<and> distinct tree_messages
   \<and> (t \<le> t' \<longrightarrow> message_tier t \<le> message_tier t')"
  using message_tier_bound [of t]
  by (simp add: format_tree_message_tier tree_messages_distinct message_tier_mono)
    (simp add: tree_messages_def)

theorem format_tree_message_step_witness:
  "(1::real) \<le> 4 \<and> message_tier 1 = 1 \<and> message_tier 4 = 3
   \<and> format_tree_message (Fin 1) = ''You planted a tree today '' @ glyph 0xB3
   \<and> format_tree_message (Fin 4) = ''You grew a small grove '' @ glyph 0xB2 @ glyph 0xB3 @ glyph 0xB2"
proof -
  have t: "message_tier 1 = 1" "message_tier 4 = 3"
    by (simp_all add: message_tier_def tree_thresholds_def)
  show ?thesis
    using format_tree_message_step [of 1 4] format_tree_message_step [of 4 4]
    by (simp add: t tree_messages_def)
qed






lemma trees_of_nothing: "float64 (py_round 2 (float64 (0 / c))) = 0"
  by (simp add: float64_zero py_round_zero)





section \<open>Window selection\<close>

lemma foldl_fl_add_Fin: "foldl fl_add (Fin a) (map Fin xs) = Fin (a + sum_list xs)"
  by (induction xs arbitrary: a) (simp_all add: add.assoc)

lemma py_sum_Fin: "py_sum (map Fin xs) = Fin (sum_list xs)"
  by (simp add: py_sum_def foldl_fl_add_Fin)

lemma window_avg_Fin: "window_avg (map Fin rs) d i = Fin (window_mean rs d i)"
  by (simp add: window_avg_def window_mean_def py_sum_Fin take_map drop_map)

lemma window_step_Fin:
  "window_step (map Fin rs) d (b, Fin v) i =
     (if v < window_mean rs d i then (i, Fin (window_mean rs d i)) else (b, Fin v))"
  by (simp add: window_step_def window_avg_Fin Let_def)

lemma window_scan:
  assumes "0 < n" and "\<forall>j < n. - 1 < window_mean rs d j"
  shows "\<exists>b < n.
           foldl (window_step (map Fin rs) d) (0, Fin (- 1)) [0 ..< n]
             = (b, Fin (window_mean rs d b))
           \<and> (\<forall>j < n. window_mean rs d j \<le> window_mean rs d b)
           \<and> (\<forall>j < b. window_mean rs d j < window_mean rs d b)"
  using assms
proof (induction n)
  case 0
  then show ?case by simp
next
  case (Suc n)
  show ?case
  proof (cases "n = 0")
    case True
    then show ?thesis
      using Suc.prems by (simp add: window_step_Fin)
  next
    case False
    then obtain b where b: "b < n"
        "foldl (window_step (map Fin rs) d) (0, Fin (- 1)) [0 ..< n] = (b, Fin (window_mean rs d b))"
        "\<forall>j < n. window_mean rs d j \<le> window_mean rs d b"
        "\<forall>j < b. window_mean rs d j < window_mean rs d b"
      using Suc.IH Suc.prems by auto
    show ?thesis
    proof (cases "window_mean rs d b < window_mean rs d n")
      case True
      have "foldl (window_step (map Fin rs) d) (0, Fin (- 1)) [0 ..< Suc n]
          = (n, Fin (window_mean rs d n))"
        using True by (simp add: b(2) window_step_Fin)
      moreover have "\<forall>j < Suc n. window_mean rs d j \<le> window_mean rs d n"
        using b(3) True by (auto simp: less_Suc_eq)
      moreover have "\<forall>j < n. window_mean rs d j < window_mean rs d n"
        using b(3) True by force
      ultimately show ?thesis by blast
    next
      case False
      have "foldl (window_step (map Fin rs) d) (0, Fin (- 1)) [0 ..< Suc n]
          = (b, Fin (window_mean rs d b))"
        using False by (simp add: b(2) window_step_Fin)
      moreover have "\<forall>j < Suc n. window_mean rs d j \<le> window_mean rs d b"
        using b(3) False by (auto simp: less_Suc_eq)
      ultimately show ?thesis
        using b(1,4) by (metis less_Suc_eq)
    qed
  qed
qed

lemma window_mean_nonneg:
  assumes "\<forall>r \<in> set rs. 0 \<le> r"
  shows "0 \<le> window_mean rs d i"
proof -
  have "set (take d (drop i rs)) \<subseteq> set rs"
    by (meson set_take_subset set_drop_subset subset_trans)
  then have "0 \<le> sum_list (take d (drop i rs))"
    using assms by (intro sum_list_nonneg) auto
  then show ?thesis
    by (simp add: window_mean_def)
qed

lemma best_window_finite:
  assumes "1 \<le> d" and "d \<le> length rs" and "\<forall>r \<in> set rs. 0 \<le> r"
  shows "\<exists>i. best_window (map Fin rs) d = (i, Fin (window_mean rs d i))
           \<and> i + d \<le> length rs
           \<and> (\<forall>j. j + d \<le> length rs \<longrightarrow> window_mean rs d j \<le> window_mean rs d i)
           \<and> (\<forall>j < i. window_mean rs d j < window_mean rs d i)"
proof -
  let ?n = "length rs + 1 - d"
  have n: "0 < ?n" using assms(2) by simp
  have "\<forall>j < ?n. - 1 < window_mean rs d j"
    using window_mean_nonneg [OF assms(3)] by (smt (verit))
  from window_scan [OF n this] obtain b where b: "b < ?n"
      "foldl (window_step (map Fin rs) d) (0, Fin (- 1)) [0 ..< ?n] = (b, Fin (window_mean rs d b))"
      "\<forall>j < ?n. window_mean rs d j \<le> window_mean rs d b"
      "\<forall>j < b. window_mean rs d j < window_mean rs d b"
    by blast
  have "best_window (map Fin rs) d = (b, Fin (window_mean rs d b))"
    using b(2) by (simp add: best_window_def)
  moreover have "b + d \<le> length rs" using b(1) by simp
  moreover have "window_mean rs d j \<le> window_mean rs d b" if "j + d \<le> length rs" for j
    using b(3) that by simp
  ultimately show ?thesis using b(4) by blast
qed

lemma window_mean_single: "i < length rs \<Longrightarrow> window_mean rs (Suc 0) i = rs ! i"
  by (simp add: window_mean_def flip: Cons_nth_drop_Suc)

text \<open>
  Claim C3. On a sequence of scores in \<open>[0, 100]\<close> with at least \<open>duration_hours\<close> elements,
  the scan returns the start of a window of \<open>duration_hours\<close> consecutive hours inside the
  sequence together with its arithmetic mean; no window has a larger mean, and every
  window that starts earlier has a smaller one. With \<open>duration_hours = 1\<close> this is the
  earliest hour of the highest score.
\<close>

theorem best_window_maximal:
  assumes "1 \<le> d" and "d \<le> length rs" and "\<forall>r \<in> set rs. 0 \<le> r \<and> r \<le> 100"
  shows "\<exists>i. best_window (map Fin rs) d = (i, Fin (window_mean rs d i))
           \<and> i + d \<le> length rs
           \<and> (\<forall>j. j + d \<le> length rs \<longrightarrow> window_mean rs d j \<le> window_mean rs d i)
           \<and> (\<forall>j < i. window_mean rs d j < window_mean rs d i)
           \<and> (d = 1 \<longrightarrow> window_mean rs d i = rs ! i
                \<and> (\<forall>j < length rs. rs ! j \<le> rs ! i) \<and> (\<forall>j < i. rs ! j < rs ! i))"
proof -
  have nn: "\<forall>r \<in> set rs. 0 \<le> r" using assms(3) by simp
  from best_window_finite [OF assms(1,2) nn] obtain i where i:
      "best_window (map Fin rs) d = (i, Fin (window_mean rs d i))"
      "i + d \<le> length rs"
      "\<forall>j. j + d \<le> length rs \<longrightarrow> window_mean rs d j \<le> window_mean rs d i"
      "\<forall>j < i. window_mean rs d j < window_mean rs d i"
    by blast
  have "window_mean rs d i = rs ! i \<and> (\<forall>j < length rs. rs ! j \<le> rs ! i)
      \<and> (\<forall>j < i. rs ! j < rs ! i)" if "d = 1"
  proof -
    have il: "i < length rs" using i(2) that by simp
    have a: "window_mean rs d i = rs ! i"
      using il that by (simp add: window_mean_single)
    have b: "rs ! j \<le> rs ! i" if "j < length rs" for j
      using i(3) that \<open>d = 1\<close> il by (simp add: window_mean_single)
    have c: "rs ! j < rs ! i" if "j < i" for j
      using i(4) that \<open>d = 1\<close> il by (simp add: window_mean_single)
    show ?thesis using a b c by blast
  qed
  then show ?thesis using i by blast
qed

theorem best_window_maximal_witness:
  "(1::nat) \<le> 2 \<and> (2::nat) \<le> length [50, 90, 90, 50 :: real]
   \<and> list_all (\<lambda>r. 0 \<le> r \<and> r \<le> 100) [50, 90, 90, 50 :: real]
   \<and> best_window (map Fin [50, 90, 90, 50]) 2 = (1, Fin 90)
   \<and> (\<exists>i. best_window (map Fin [50, 90, 90, 50]) 2 = (i, Fin (window_mean [50, 90, 90, 50] 2 i))
         \<and> i + 2 \<le> length [50, 90, 90, 50 :: real])"
proof -
  have a: "(1::nat) \<le> 2" by simp
  have b: "(2::nat) \<le> length [50, 90, 90, 50 :: real]" by simp
  have c: "\<forall>r \<in> set [50, 90, 90, 50 :: real]. 0 \<le> r \<and> r \<le> 100" by simp
  have e: "best_window (map Fin [50, 90, 90, 50]) 2 = (1, Fin 90)"
    by (simp add: best_window_def window_step_def window_avg_def py_sum_def upt_rec)
  show ?thesis
    using best_window_maximal [OF a b c] e by auto
qed

section \<open>The request as a whole\<close>

lemma best_window_short: "length scores < d \<Longrightarrow> best_window scores d = (0, Fin (- 1))"
  by (simp add: best_window_def)

lemma recommend_window_Inr:
  assumes "recommend_window nan_ok loc df d = Inr r"
  shows "d \<noteq> 0" and "df \<noteq> []" and "list_all (score_valid nan_ok) (map snd df)"
    and "take d (drop (fst (best_window (map snd df) d)) df) \<noteq> []"
    and "map timestamp (predictions r) = map fst df"
    and "map cleanliness_score (predictions r) = map snd df"
    and "window_start (recommended r) = fst (hd (take d (drop (fst (best_window (map snd df) d)) df)))"
    and "window_end (recommended r) = fst (last (take d (drop (fst (best_window (map snd df) d)) df)))"
    and "average_cleanliness_score (recommended r)
          = fl_round 1 (fl_float64 (snd (best_window (map snd df) d)))"
    and "impact (recommended r)
          = calculate_impact (fl_float64 (fl_over (py_sum (map snd df)) (real (length df))))
              (fl_float64 (snd (best_window (map snd df) d))) d"
  using assms
  by (auto simp: recommend_window_def server_error_def Let_def comp_def
      split: if_splits prod.splits)

lemma recommend_window_ok:
  assumes "d \<noteq> 0" and "df \<noteq> []" and "list_all (score_valid nan_ok) (map snd df)"
    and "take d (drop (fst (best_window (map snd df) d)) df) \<noteq> []"
  shows "\<exists>r. recommend_window nan_ok loc df d = Inr r"
  using assms
  by (auto simp: recommend_window_def server_error_def Let_def split: prod.splits)




lemma day_filter_subset:
  assumes "day_filter to_date day df = Inr kept"
  shows "set kept \<subseteq> set df"
  using assms
  by (auto simp: day_filter_def Let_def split: option.splits if_splits)

lemma all_Fin_list:
  assumes "\<forall>x \<in> set xs. \<exists>v. x = Fin v \<and> P v"
  shows "\<exists>rs. xs = map Fin rs \<and> (\<forall>r \<in> set rs. P r)"
  using assms
proof (induction xs)
  case Nil
  then show ?case by simp
next
  case (Cons x xs)
  then obtain rs where rs: "xs = map Fin rs" "\<forall>r \<in> set rs. P r" by auto
  from Cons.prems obtain v where v: "x = Fin v" "P v" by auto
  have "x # xs = map Fin (v # rs) \<and> (\<forall>r \<in> set (v # rs). P r)"
    using rs v by simp
  then show ?case by (rule exI)
qed

lemma block_ends:
  assumes "1 \<le> d" and "i + d \<le> length xs"
  shows "hd (take d (drop i xs)) = xs ! i" and "last (take d (drop i xs)) = xs ! (i + d - 1)"
proof -
  have len: "length (take d (drop i xs)) = d" using assms by simp
  then have ne: "take d (drop i xs) \<noteq> []" using assms(1) by auto
  show "hd (take d (drop i xs)) = xs ! i"
    using assms ne by (simp add: hd_conv_nth)
  have "last (take d (drop i xs)) = take d (drop i xs) ! (d - 1)"
    using ne len by (simp add: last_conv_nth)
  also have "\<dots> = xs ! (i + d - 1)"
    using assms by simp
  finally show "last (take d (drop i xs)) = xs ! (i + d - 1)" .
qed


lemma sum_list_upper:
  fixes xs :: "real list"
  assumes "\<forall>x \<in> set xs. x \<le> B"
  shows "sum_list xs \<le> B * real (length xs)"
  using assms by (induction xs) (auto simp: algebra_simps)

lemma window_mean_upper:
  assumes "\<forall>r \<in> set rs. r \<le> B" and "0 \<le> B" and "1 \<le> d"
  shows "window_mean rs d i \<le> B"
proof -
  have sub: "set (take d (drop i rs)) \<subseteq> set rs"
    by (meson set_take_subset set_drop_subset subset_trans)
  then have "sum_list (take d (drop i rs)) \<le> B * real (length (take d (drop i rs)))"
    using assms(1) by (intro sum_list_upper) auto
  also have "\<dots> \<le> B * real d"
    using assms(2) by (intro mult_left_mono) simp_all
  finally have "sum_list (take d (drop i rs)) / real d \<le> B * real d / real d"
    by (rule divide_right_mono) simp
  then show ?thesis
    using assms(3) by (simp add: window_mean_def)
qed

text \<open>Rounding a mean between 0 and 100 to a double, then to one decimal place, then to a
  double again moves it by at most 0.0501.\<close>

lemma reported_average_near:
  assumes "0 \<le> \<mu>" and "\<mu> \<le> 100"
  shows "\<bar>float64 (py_round 1 (float64 \<mu>)) - \<mu>\<bar> \<le> 501 / 10000"
proof -
  define y where "y = float64 \<mu>"
  define z where "z = py_round 1 y"
  have p: "(2::real) ^ 53 = 9007199254740992" by simp
  have e1: "\<bar>y - \<mu>\<bar> \<le> 100 / 9007199254740992"
    using rnd_error_bounded [of \<mu> 100 53] assms by (simp add: y_def float64_def)
  have y: "0 \<le> y" "y \<le> 100"
    using rnd_bounded [of \<mu> 100 53] assms by (simp_all add: y_def float64_def)
  have e2: "\<bar>z - y\<bar> \<le> 1 / 20"
    using py_round_near [of 1 y] by (simp add: z_def)
  have z: "0 \<le> z" "z \<le> 100"
    using py_round_between [of 0 y 100 1] y by (simp_all add: z_def)
  have e3: "\<bar>float64 z - z\<bar> \<le> 100 / 9007199254740992"
    using rnd_error_bounded [of z 100 53] z by (simp add: float64_def)
  have "\<bar>float64 z - \<mu>\<bar> \<le> 501 / 10000"
    using e1 e2 e3 by linarith
  then show ?thesis
    by (simp only: z_def y_def)
qed

lemma valid_scores_finite:
  assumes "list_all (score_valid False) scores"
  shows "\<exists>rs. scores = map Fin rs \<and> (\<forall>v \<in> set rs. 0 \<le> v \<and> v \<le> 100)"
proof -
  have "\<exists>v. x = Fin v \<and> 0 \<le> v \<and> v \<le> 100" if "x \<in> set scores" for x
  proof -
    have "score_valid False x"
      using assms that by (simp add: list_all_iff)
    then show ?thesis
      by (cases x) (simp_all add: score_valid_def)
  qed
  then show ?thesis
    using all_Fin_list [of scores "\<lambda>v. 0 \<le> v \<and> v \<le> 100"] by blast
qed

lemma recommend_window_eval:
  assumes "d \<noteq> 0" and "df \<noteq> []" and "list_all (score_valid nan_ok) (map snd df)"
    and "best_window (map snd df) d = (i, a)" and "take d (drop i df) \<noteq> []"
  shows "\<exists>r. recommend_window nan_ok loc df d = Inr r
           \<and> window_start (recommended r) = fst (hd (take d (drop i df)))
           \<and> window_end (recommended r) = fst (last (take d (drop i df)))
           \<and> average_cleanliness_score (recommended r) = fl_round 1 (fl_float64 a)"
proof -
  have blk: "take d (drop (fst (best_window (map snd df) d)) df) \<noteq> []"
    using assms(4,5) by simp
  obtain r where r: "recommend_window nan_ok loc df d = Inr r"
    using recommend_window_ok [OF assms(1,2,3) blk] by blast
  show ?thesis
    using recommend_window_Inr(7,8,9) [OF r] r by (simp add: assms(4))
qed

lemma generate_predictions_no_day:
  "generate_predictions to_date nan_ok loc weather_df None d
     = recommend_window nan_ok loc (scored_frame weather_df) d"
  by (simp add: generate_predictions_def day_filter_def)

lemma scored_frame_three:
  "scored_frame [\<lparr>datetime = 0, predicted_score = 0\<rparr>, \<lparr>datetime = 3600, predicted_score = 1\<rparr>,
         \<lparr>datetime = 7200, predicted_score = 1\<rparr>]
     = [(0, Fin 0), (3600, Fin 100), (7200, Fin 100)]"
  by (simp add: scored_frame_def cleanliness_scores_def float32_numeral float32_zero
      float32_one round_half_even_def)

lemma scored_frame_two:
  "scored_frame [\<lparr>datetime = 0, predicted_score = 0\<rparr>, \<lparr>datetime = 3600, predicted_score = 1\<rparr>]
     = [(0, Fin 0), (3600, Fin 100)]"
  by (simp add: scored_frame_def cleanliness_scores_def float32_numeral float32_zero
      float32_one round_half_even_def)

text \<open>
  Claim C4 says that the reported average is the maximal window average and that the
  window has the requested length. The reported average is rounded to one decimal place:
  the scores 0, 100, 100 with a duration of 3 have the single window average 200 / 3,
  and the double nearest to 66.7 is reported. With two hours and a duration of 3 the
  window spans the two hours and the average is \<open>-1\<close>.
\<close>

theorem recommended_window_counterexample:
  "map_sum id (\<lambda>r. average_cleanliness_score (recommended r))
     (generate_predictions (\<lambda>s. None) False ''Paris''
        [\<lparr>datetime = 0, predicted_score = 0\<rparr>, \<lparr>datetime = 3600, predicted_score = 1\<rparr>,
         \<lparr>datetime = 7200, predicted_score = 1\<rparr>] None 3)
     = Inr (Fin (float64 (667 / 10)))
   \<and> window_mean [0, 100, 100] 3 0 = 200 / 3
   \<and> float64 (667 / 10) \<noteq> 200 / 3
   \<and> map_sum id (\<lambda>r. (window_start (recommended r), window_end (recommended r),
                       average_cleanliness_score (recommended r)))
       (generate_predictions (\<lambda>s. None) False ''Paris''
          [\<lparr>datetime = 0, predicted_score = 0\<rparr>, \<lparr>datetime = 3600, predicted_score = 1\<rparr>]
          None 3)
     = Inr (0, 3600, Fin (- 1))"
proof -
  let ?df3 = "[(0::nat, Fin 0), (3600, Fin 100), (7200, Fin 100)]"
  let ?df2 = "[(0::nat, Fin 0), (3600, Fin 100)]"
  have p: "(2::real) ^ 53 = 9007199254740992" by simp
  have e: "\<bar>float64 (200 / 3) - 200 / 3\<bar> \<le> (200 / 3) / 9007199254740992"
    using float64_error [of "200 / 3"] by simp
  have b1: "1333 / 20 < float64 (200 / 3)" and b2: "float64 (200 / 3) < 267 / 4"
    using e by linarith+
  have pr: "py_round 1 (float64 (200 / 3)) = 667 / 10"
    using py_round_window [of 667 1 "float64 (200 / 3)"] b1 b2 by simp
  then have pr': "py_round (Suc 0) (float64 (200 / 3)) = 667 / 10"
    by simp
  have bw3: "best_window (map snd ?df3) 3 = (0, Fin (200 / 3))"
    by (simp add: best_window_def window_step_def window_avg_def py_sum_def)
  obtain r3 where r3: "recommend_window False ''Paris'' ?df3 3 = Inr r3"
      "average_cleanliness_score (recommended r3) = fl_round 1 (fl_float64 (Fin (200 / 3)))"
    using recommend_window_eval [of 3 ?df3 False 0 "Fin (200 / 3)" "''Paris''"] bw3
    by (auto simp: score_valid_def)
  have a: "map_sum id (\<lambda>r. average_cleanliness_score (recommended r))
     (generate_predictions (\<lambda>s. None) False ''Paris''
        [\<lparr>datetime = 0, predicted_score = 0\<rparr>, \<lparr>datetime = 3600, predicted_score = 1\<rparr>,
         \<lparr>datetime = 7200, predicted_score = 1\<rparr>] None 3)
     = Inr (Fin (float64 (667 / 10)))"
    by (simp add: generate_predictions_no_day scored_frame_three r3 pr')
  have b: "window_mean [0, 100, 100] 3 0 = 200 / 3"
    by (simp add: window_mean_def)
  have e': "\<bar>float64 (667 / 10) - 667 / 10\<bar> \<le> (667 / 10) / 9007199254740992"
    using float64_error [of "667 / 10"] by simp
  have c: "float64 (667 / 10) \<noteq> 200 / 3"
    using e' by linarith
  have bw2: "best_window (map snd ?df2) 3 = (0, Fin (- 1))"
    by (rule best_window_short) simp
  obtain r2 where r2: "recommend_window False ''Paris'' ?df2 3 = Inr r2"
      "window_start (recommended r2) = 0" "window_end (recommended r2) = 3600"
      "average_cleanliness_score (recommended r2) = Fin (- 1)"
    using recommend_window_eval [of 3 ?df2 False 0 "Fin (- 1)" "''Paris''"] bw2
    by (auto simp: score_valid_def float64_minus_one py_round_minus_one)
  have d: "map_sum id (\<lambda>r. (window_start (recommended r), window_end (recommended r),
                       average_cleanliness_score (recommended r)))
       (generate_predictions (\<lambda>s. None) False ''Paris''
          [\<lparr>datetime = 0, predicted_score = 0\<rparr>, \<lparr>datetime = 3600, predicted_score = 1\<rparr>]
          None 3)
     = Inr (0, 3600, Fin (- 1))"
    by (simp add: generate_predictions_no_day scored_frame_two r2)
  show ?thesis
    using a b c d by blast
qed

text \<open>
  Claim C4, as amended: for every result returned by the pipeline (whose validation
  rejects NaN) for a fetched (and, when a day filter is given, filtered) range \<open>df_proc\<close>
  of at least \<open>duration_hours\<close> rows, the window is a block of exactly \<open>duration_hours\<close>
  consecutive rows of that range (it starts at row \<open>i\<close> and ends at row
  \<open>i + duration_hours - 1\<close>), the mean of that block is maximal among all blocks of that
  length, earlier blocks have a smaller mean, and the reported average is that maximal
  mean as a double, rounded to one decimal place by Python's \<open>round\<close>; it is within 0.0501
  of the maximal mean.
\<close>

theorem recommended_window_rounded_max:
  assumes ret: "generate_predictions to_date False loc weather_df day d = Inr r"
    and rng: "day_filter to_date day (scored_frame weather_df) = Inr df_proc"
    and len: "d \<le> length df_proc"
  shows "\<exists>rs i. map snd df_proc = map Fin rs
           \<and> 1 \<le> d \<and> i + d \<le> length df_proc
           \<and> map timestamp (predictions r) = map fst df_proc
           \<and> window_start (recommended r) = fst (df_proc ! i)
           \<and> window_end (recommended r) = fst (df_proc ! (i + d - 1))
           \<and> (\<forall>j. j + d \<le> length df_proc \<longrightarrow> window_mean rs d j \<le> window_mean rs d i)
           \<and> (\<forall>j < i. window_mean rs d j < window_mean rs d i)
           \<and> average_cleanliness_score (recommended r)
               = Fin (float64 (py_round 1 (float64 (window_mean rs d i))))
           \<and> \<bar>float64 (py_round 1 (float64 (window_mean rs d i))) - window_mean rs d i\<bar>
               \<le> 501 / 10000"
proof -
  have rw: "recommend_window False loc df_proc d = Inr r"
    using ret rng by (simp add: generate_predictions_def)
  note facts = recommend_window_Inr [OF rw]
  have d1: "1 \<le> d" using facts(1) by simp
  obtain rs where rs: "map snd df_proc = map Fin rs" "\<forall>v \<in> set rs. 0 \<le> v \<and> v \<le> 100"
    using valid_scores_finite [OF facts(3)] by blast
  have lrs: "length rs = length df_proc"
    using rs(1) by (metis length_map)
  have nn: "\<forall>v \<in> set rs. 0 \<le> v" using rs(2) by simp
  have up: "\<forall>v \<in> set rs. v \<le> 100" using rs(2) by simp
  have dl: "d \<le> length rs" using len lrs by simp
  from best_window_finite [OF d1 dl nn] obtain i where i:
      "best_window (map Fin rs) d = (i, Fin (window_mean rs d i))"
      "i + d \<le> length rs"
      "\<forall>j. j + d \<le> length rs \<longrightarrow> window_mean rs d j \<le> window_mean rs d i"
      "\<forall>j < i. window_mean rs d j < window_mean rs d i"
    by blast
  have il: "i + d \<le> length df_proc" using i(2) lrs by simp
  have bw: "best_window (map snd df_proc) d = (i, Fin (window_mean rs d i))"
    using i(1) rs(1) by simp
  have st: "window_start (recommended r) = fst (df_proc ! i)"
    using facts(7) block_ends(1) [OF d1 il] by (simp add: bw)
  have en: "window_end (recommended r) = fst (df_proc ! (i + d - 1))"
    using facts(8) block_ends(2) [OF d1 il] by (simp add: bw)
  have av: "average_cleanliness_score (recommended r)
      = Fin (float64 (py_round 1 (float64 (window_mean rs d i))))"
    using facts(9) by (simp add: bw)
  have mx: "\<forall>j. j + d \<le> length df_proc \<longrightarrow> window_mean rs d j \<le> window_mean rs d i"
    using i(3) lrs by simp
  have m0: "0 \<le> window_mean rs d i"
    using window_mean_nonneg [OF nn] .
  have m1: "window_mean rs d i \<le> 100"
    using window_mean_upper [OF up _ d1] by simp
  have near: "\<bar>float64 (py_round 1 (float64 (window_mean rs d i))) - window_mean rs d i\<bar>
      \<le> 501 / 10000"
    using reported_average_near [OF m0 m1] .
  show ?thesis
    using rs(1) d1 il facts(5) st en mx i(4) av near by blast
qed

theorem recommended_window_rounded_max_witness:
  "\<exists>r df_proc.
      generate_predictions (\<lambda>s. None) False ''Paris''
        [\<lparr>datetime = 0, predicted_score = 0\<rparr>, \<lparr>datetime = 3600, predicted_score = 1\<rparr>,
         \<lparr>datetime = 7200, predicted_score = 1\<rparr>] None 2 = Inr r
      \<and> day_filter (\<lambda>s. None) None
          (scored_frame [\<lparr>datetime = 0, predicted_score = 0\<rparr>,
             \<lparr>datetime = 3600, predicted_score = 1\<rparr>, \<lparr>datetime = 7200, predicted_score = 1\<rparr>])
          = Inr df_proc
      \<and> df_proc = [(0, Fin 0), (3600, Fin 100), (7200, Fin 100)]
      \<and> 2 \<le> length df_proc
      \<and> window_start (recommended r) = 3600 \<and> window_end (recommended r) = 7200
      \<and> average_cleanliness_score (recommended r) = Fin 100
      \<and> (\<exists>rs i. map snd df_proc = map Fin rs \<and> i + 2 \<le> length df_proc
            \<and> window_start (recommended r) = fst (df_proc ! i)
            \<and> window_end (recommended r) = fst (df_proc ! (i + 2 - 1))
            \<and> average_cleanliness_score (recommended r)
                = Fin (float64 (py_round 1 (float64 (window_mean rs 2 i)))))"
proof -
  let ?w = "[\<lparr>datetime = 0, predicted_score = 0\<rparr>, \<lparr>datetime = 3600, predicted_score = 1\<rparr>,
         \<lparr>datetime = 7200, predicted_score = 1\<rparr>]"
  let ?df = "[(0::nat, Fin 0), (3600, Fin 100), (7200, Fin 100)]"
  have bw: "best_window (map snd ?df) 2 = (1, Fin 100)"
    by (simp add: best_window_def window_step_def window_avg_def py_sum_def upt_rec)
  obtain r where r: "recommend_window False ''Paris'' ?df 2 = Inr r"
      "window_start (recommended r) = 3600" "window_end (recommended r) = 7200"
      "average_cleanliness_score (recommended r) = Fin 100"
    using recommend_window_eval [of 2 ?df False 1 "Fin 100" "''Paris''"] bw
    by (auto simp: score_valid_def float64_numeral py_round_numeral)
  have g: "generate_predictions (\<lambda>s. None) False ''Paris'' ?w None 2 = Inr r"
    by (simp only: generate_predictions_no_day scored_frame_three r(1))
  have f: "day_filter (\<lambda>s. None) None (scored_frame ?w) = Inr ?df"
    by (simp add: day_filter_def scored_frame_three)
  have l: "2 \<le> length ?df" by simp
  from recommended_window_rounded_max [OF g f l]
  have "\<exists>rs i. map snd ?df = map Fin rs \<and> i + 2 \<le> length ?df
            \<and> window_start (recommended r) = fst (?df ! i)
            \<and> window_end (recommended r) = fst (?df ! (i + 2 - 1))
            \<and> average_cleanliness_score (recommended r)
                = Fin (float64 (py_round 1 (float64 (window_mean rs 2 i))))"
    by blast
  then show ?thesis
    using r g f l by blast
qed

section \<open>Day filter\<close>

lemma length_cleanliness_scores: "length (cleanliness_scores raw) = length raw"
  by (simp add: cleanliness_scores_def Let_def split: list.splits)

lemma scored_frame_datetimes: "map fst (scored_frame weather_df) = map datetime weather_df"
  by (simp add: scored_frame_def length_cleanliness_scores)

lemma filter_scored_frame:
  "map fst (filter (\<lambda>row. P (fst row)) (scored_frame weather_df))
     = filter P (map datetime weather_df)"
proof -
  have "map fst (filter (\<lambda>row. P (fst row)) (scored_frame weather_df))
      = filter P (map fst (scored_frame weather_df))"
    by (simp add: filter_map comp_def)
  then show ?thesis
    by (simp only: scored_frame_datetimes)
qed

lemma day_filter_Some:
  assumes "s \<noteq> []" and "to_date s = Some target"
  shows "day_filter to_date (Some s) df =
     (let kept = filter (\<lambda>row. dt_date (fst row) = target) df
      in if kept = [] then Inl (HTTPException 404 (No_forecast_data_for s)) else Inr kept)"
  using assms by (simp add: day_filter_def)

lemma recommend_window_block:
  assumes "recommend_window nan_ok loc df d = Inr r"
  shows "window_start (recommended r) \<in> fst ` set df"
    and "window_end (recommended r) \<in> fst ` set df"
proof -
  let ?blk = "take d (drop (fst (best_window (map snd df) d)) df)"
  note facts = recommend_window_Inr [OF assms]
  have sub: "set ?blk \<subseteq> set df"
    by (meson set_take_subset set_drop_subset subset_trans)
  have "hd ?blk \<in> set ?blk" "last ?blk \<in> set ?blk"
    using facts(4) by (rule hd_in_set, rule last_in_set)
  then show "window_start (recommended r) \<in> fst ` set df"
    and "window_end (recommended r) \<in> fst ` set df"
    using sub facts(7,8) by auto
qed

text \<open>
  Claim C8. When a day is supplied (a string that is not empty and that parses to a
  date), the scored rows are restricted to the timestamps of that UTC date before the
  window is selected. If no row is left the request fails with status 404 (``No forecast
  data for'' the day); otherwise every returned prediction and both ends of the window
  lie on that date, and at least one prediction is returned.
\<close>

theorem day_filter_before_window:
  assumes "s \<noteq> []" and "to_date s = Some target"
  shows "generate_predictions to_date nan_ok loc weather_df (Some s) d =
           (let kept = filter (\<lambda>row. dt_date (fst row) = target) (scored_frame weather_df)
            in if kept = [] then Inl (HTTPException 404 (No_forecast_data_for s))
               else recommend_window nan_ok loc kept d)
       \<and> (filter (\<lambda>t. dt_date t = target) (map datetime weather_df) = [] \<longrightarrow>
            generate_predictions to_date nan_ok loc weather_df (Some s) d
              = Inl (HTTPException 404 (No_forecast_data_for s)))
       \<and> (\<forall>r. generate_predictions to_date nan_ok loc weather_df (Some s) d = Inr r \<longrightarrow>
            predictions r \<noteq> []
            \<and> map timestamp (predictions r)
                = filter (\<lambda>t. dt_date t = target) (map datetime weather_df)
            \<and> dt_date (window_start (recommended r)) = target
            \<and> dt_date (window_end (recommended r)) = target)"
proof -
  let ?kept = "filter (\<lambda>row. dt_date (fst row) = target) (scored_frame weather_df)"
  let ?res = "generate_predictions to_date nan_ok loc weather_df (Some s) d"
  have eq: "?res = (if ?kept = [] then Inl (HTTPException 404 (No_forecast_data_for s))
                    else recommend_window nan_ok loc ?kept d)"
    using day_filter_Some [where s = s and to_date = to_date and target = target, OF assms]
    by (simp add: generate_predictions_def Let_def)
  have ts: "map fst ?kept = filter (\<lambda>t. dt_date t = target) (map datetime weather_df)"
    by (rule filter_scored_frame)
  have none: "?res = Inl (HTTPException 404 (No_forecast_data_for s))"
    if "filter (\<lambda>t. dt_date t = target) (map datetime weather_df) = []"
  proof -
    have "map fst ?kept = []" using that ts by simp
    then have "?kept = []" by simp
    then show ?thesis using eq by simp
  qed
  have some: "predictions r \<noteq> []
            \<and> map timestamp (predictions r)
                = filter (\<lambda>t. dt_date t = target) (map datetime weather_df)
            \<and> dt_date (window_start (recommended r)) = target
            \<and> dt_date (window_end (recommended r)) = target" if "?res = Inr r" for r
  proof -
    have ne: "?kept \<noteq> []" using that eq by auto
    then have rw: "recommend_window nan_ok loc ?kept d = Inr r"
      using that eq by simp
    note facts = recommend_window_Inr [OF rw]
    have a: "map timestamp (predictions r)
        = filter (\<lambda>t. dt_date t = target) (map datetime weather_df)"
      using facts(5) ts by simp
    have "map timestamp (predictions r) \<noteq> []"
      using facts(5) ne by simp
    then have b: "predictions r \<noteq> []" by auto
    have c: "dt_date (window_start (recommended r)) = target"
      using recommend_window_block(1) [OF rw] by auto
    have e: "dt_date (window_end (recommended r)) = target"
      using recommend_window_block(2) [OF rw] by auto
    show ?thesis using a b c e by simp
  qed
  show ?thesis
    using eq none some by (simp add: Let_def)
qed

theorem day_filter_before_window_witness:
  "''1970-01-02'' \<noteq> []
   \<and> (\<lambda>x. if x = ''1970-01-02'' then Some (1::nat) else None) ''1970-01-02'' = Some 1
   \<and> generate_predictions (\<lambda>x. if x = ''1970-01-02'' then Some 1 else None) False ''Paris''
        [\<lparr>datetime = 0, predicted_score = 3\<rparr>, \<lparr>datetime = 82800, predicted_score = 9\<rparr>]
        (Some ''1970-01-02'') 1
       = Inl (HTTPException 404 (No_forecast_data_for ''1970-01-02''))
   \<and> generate_predictions (\<lambda>x. if x = ''1970-01-02'' then Some 1 else None) False ''Paris''
        [\<lparr>datetime = 0, predicted_score = 3\<rparr>, \<lparr>datetime = 82800, predicted_score = 9\<rparr>,
         \<lparr>datetime = 86400, predicted_score = 1\<rparr>, \<lparr>datetime = 90000, predicted_score = 5\<rparr>]
        (Some ''1970-01-02'') 1
       = recommend_window False ''Paris'' [(86400, Fin 0), (90000, Fin 50)] 1"
proof -
  let ?to_date = "\<lambda>x. if x = ''1970-01-02'' then Some (1::nat) else None"
  have a: "''1970-01-02'' \<noteq> []" by simp
  have b: "?to_date ''1970-01-02'' = Some 1" by simp
  have k1: "filter (\<lambda>t. dt_date t = 1) (map datetime
        [\<lparr>datetime = 0, predicted_score = 3\<rparr>, \<lparr>datetime = 82800, predicted_score = 9\<rparr>]) = []"
    by (simp add: dt_date_def)
  have k2: "filter (\<lambda>row. dt_date (fst row) = 1) (scored_frame
        [\<lparr>datetime = 0, predicted_score = 3\<rparr>, \<lparr>datetime = 82800, predicted_score = 9\<rparr>,
         \<lparr>datetime = 86400, predicted_score = 1\<rparr>, \<lparr>datetime = 90000, predicted_score = 5\<rparr>])
      = [(86400, Fin 0), (90000, Fin 50)]"
    by (simp add: dt_date_def scored_frame_def cleanliness_scores_def float32_numeral
        float32_zero float32_one float32_half float32_quarter round_half_even_def)
  note t1 = day_filter_before_window [where s = "''1970-01-02''" and to_date = ?to_date
        and target = 1 and nan_ok = False and loc = "''Paris''" and d = 1 and weather_df =
        "[\<lparr>datetime = 0, predicted_score = 3\<rparr>, \<lparr>datetime = 82800, predicted_score = 9\<rparr>]",
        OF a b]
  note t2 = day_filter_before_window [where s = "''1970-01-02''" and to_date = ?to_date
        and target = 1 and nan_ok = False and loc = "''Paris''" and d = 1 and weather_df =
        "[\<lparr>datetime = 0, predicted_score = 3\<rparr>, \<lparr>datetime = 82800, predicted_score = 9\<rparr>,
          \<lparr>datetime = 86400, predicted_score = 1\<rparr>, \<lparr>datetime = 90000, predicted_score = 5\<rparr>]",
        OF a b]
  have r1: "generate_predictions ?to_date False ''Paris''
        [\<lparr>datetime = 0, predicted_score = 3\<rparr>, \<lparr>datetime = 82800, predicted_score = 9\<rparr>]
        (Some ''1970-01-02'') 1
       = Inl (HTTPException 404 (No_forecast_data_for ''1970-01-02''))"
    using t1 k1 by blast
  have r2: "generate_predictions ?to_date False ''Paris''
        [\<lparr>datetime = 0, predicted_score = 3\<rparr>, \<lparr>datetime = 82800, predicted_score = 9\<rparr>,
         \<lparr>datetime = 86400, predicted_score = 1\<rparr>, \<lparr>datetime = 90000, predicted_score = 5\<rparr>]
        (Some ''1970-01-02'') 1
       = recommend_window False ''Paris'' [(86400, Fin 0), (90000, Fin 50)] 1"
    using conjunct1 [OF t2] by (simp only: k2 Let_def list.distinct if_False)
  show ?thesis
    using a b r1 r2 by blast
qed

section \<open>Properties of the mock service\<close>







end
